theory Spec2Isabelle
  imports Main "HOL-Library.AList"
begin

section \<open>Text\<close>

text \<open>
  A Python \<open>str\<close> is a sequence of Unicode code points, so text is a list of code points
  (\<open>ord\<close> of each character).
  The program's ASCII literals are written as HOL string literals and embedded with \<open>lit\<close>.
\<close>

type_synonym ustr = "int list"

definition lit :: "string \<Rightarrow> ustr" where
  "lit s = map of_char s"

text \<open>
  \<open>re\<close> and \<open>str\<close> consult the Unicode character database. Its tables are not part of the
  repository, so they are a parameter of the model:
  \<^item> \<open>word_char\<close>: the class \<open>\w\<close> of \<open>re\<close>;
  \<^item> \<open>ci_eq p c\<close>: the pattern character \<open>p\<close> matches the text character \<open>c\<close> under
    \<open>re.IGNORECASE\<close>;
  \<^item> \<open>space_char\<close>: the characters removed by \<open>str.strip()\<close>;
  \<^item> \<open>lower\<close>: \<open>str.lower()\<close>.
\<close>

record tables =
  word_char :: "int \<Rightarrow> bool"
  ci_eq :: "int \<Rightarrow> int \<Rightarrow> bool"
  space_char :: "int \<Rightarrow> bool"
  lower :: "ustr \<Rightarrow> ustr"

text \<open>The tables restricted to ASCII, where they are small enough to write down.\<close>

definition ascii_lower :: "int \<Rightarrow> int" where
  "ascii_lower c = (if 65 \<le> c \<and> c \<le> 90 then c + 32 else c)"

definition ascii_word :: "int \<Rightarrow> bool" where
  "ascii_word c = ((48 \<le> c \<and> c \<le> 57) \<or> (65 \<le> c \<and> c \<le> 90) \<or> c = 95 \<or> (97 \<le> c \<and> c \<le> 122))"

definition ascii_space :: "int \<Rightarrow> bool" where
  "ascii_space c = ((9 \<le> c \<and> c \<le> 13) \<or> (28 \<le> c \<and> c \<le> 32))"

definition ascii :: tables where
  "ascii = \<lparr> word_char = ascii_word,
             ci_eq = (\<lambda>p c. ascii_lower p = ascii_lower c),
             space_char = ascii_space,
             lower = map ascii_lower \<rparr>"

section \<open>Pattern matcher\<close>

subsection \<open>The fragment of \<open>re\<close> the program uses\<close>

text \<open>
  \<open>\b\<close> at position \<open>i\<close>: exactly one of the characters before and at \<open>i\<close> is a word
  character, a position outside the text counting as a non-word character.
\<close>

definition at_boundary :: "tables \<Rightarrow> ustr \<Rightarrow> nat \<Rightarrow> bool" where
  "at_boundary T s i =
     ((0 < i \<and> i \<le> length s \<and> word_char T (s ! (i - 1))) \<noteq> (i < length s \<and> word_char T (s ! i)))"

text \<open>An escaped literal under \<open>re.IGNORECASE\<close>, tried at position \<open>i\<close>.\<close>

definition lit_at :: "tables \<Rightarrow> ustr \<Rightarrow> ustr \<Rightarrow> nat \<Rightarrow> bool" where
  "lit_at T w s i =
     (i + length w \<le> length s \<and> list_all2 (ci_eq T) w (take (length w) (drop i s)))"

text \<open>
  \<open>Pattern.search\<close>: the start positions \<open>0 .. len(text)\<close> are tried from the left; \<open>at\<close>
  gives the length of the match the pattern finds at a position, if any. The result is
  \<open>m.group(0)\<close>.
\<close>

fun first_match :: "(nat \<Rightarrow> nat option) \<Rightarrow> nat list \<Rightarrow> (nat \<times> nat) option" where
  "first_match at [] = None"
| "first_match at (i # is) = (case at i of Some n \<Rightarrow> Some (i, n) | None \<Rightarrow> first_match at is)"

definition re_search :: "(ustr \<Rightarrow> nat \<Rightarrow> nat option) \<Rightarrow> ustr \<Rightarrow> ustr option" where
  "re_search at s =
     (case first_match (at s) [0..<Suc (length s)] of
        None \<Rightarrow> None
      | Some (i, n) \<Rightarrow> Some (take n (drop i s)))"

text \<open>
  The two shapes \<open>compile_patterns\<close> builds: \<open>re.escape(w)\<close> and
  \<open>\b\<close> + \<open>re.escape(w)\<close> + \<open>\b\<close>, both with \<open>re.IGNORECASE\<close>.
\<close>

datatype pattern = Plain ustr | Bounded ustr

fun pattern_at :: "tables \<Rightarrow> pattern \<Rightarrow> ustr \<Rightarrow> nat \<Rightarrow> nat option" where
  "pattern_at T (Plain w) s i = (if lit_at T w s i then Some (length w) else None)"
| "pattern_at T (Bounded w) s i =
     (if at_boundary T s i \<and> lit_at T w s i \<and> at_boundary T s (i + length w)
      then Some (length w) else None)"

definition search :: "tables \<Rightarrow> pattern \<Rightarrow> ustr \<Rightarrow> ustr option" where
  "search T p = re_search (pattern_at T p)"

subsection \<open>\<open>compile_patterns\<close> and \<open>contains_banned\<close>\<close>

definition strip :: "tables \<Rightarrow> ustr \<Rightarrow> ustr" where
  "strip T w = rev (dropWhile (space_char T) (rev (dropWhile (space_char T) w)))"

fun compile_patterns :: "tables \<Rightarrow> ustr list \<Rightarrow> pattern list" where
  "compile_patterns T [] = []"
| "compile_patterns T (w # ws) =
     (let w' = strip T w in
      if w' = [] then compile_patterns T ws
      else if 32 \<in> set w' then Plain w' # compile_patterns T ws
      else Bounded w' # compile_patterns T ws)"

fun first_hit :: "tables \<Rightarrow> ustr \<Rightarrow> pattern list \<Rightarrow> bool \<times> ustr" where
  "first_hit T text [] = (False, [])"
| "first_hit T text (patt # patterns) =
     (case search T patt text of
        Some g \<Rightarrow> (True, g)
      | None \<Rightarrow> first_hit T text patterns)"

definition contains_banned :: "tables \<Rightarrow> ustr \<Rightarrow> pattern list \<Rightarrow> bool \<times> ustr" where
  "contains_banned T text patterns = (if text = [] then (False, []) else first_hit T text patterns)"

subsection \<open>\<open>LINK_REGEX\<close> and \<open>contains_link\<close>\<close>

text \<open>\<open>[a-z]\<close> under \<open>re.IGNORECASE\<close>: some letter of the range matches the character.\<close>

definition az :: "tables \<Rightarrow> ustr \<Rightarrow> nat \<Rightarrow> bool" where
  "az T s i = (i < length s \<and> list_ex (\<lambda>p. ci_eq T p (s ! i)) [97..122])"

text \<open>
  \<open>(?:/|\b)\<close> after the letters ending at \<open>j\<close>, for a match that started at \<open>i\<close>: the
  slash is tried first and belongs to the match.
\<close>

definition suffix_end :: "tables \<Rightarrow> ustr \<Rightarrow> nat \<Rightarrow> nat \<Rightarrow> nat option" where
  "suffix_end T s i j =
     (if lit_at T (lit ''/'') s j then Some (Suc j - i)
      else if at_boundary T s j then Some (j - i)
      else None)"

text \<open>
  \<open>\.[a-z]{2,3}(?:/|\b)\<close>: the repetition is greedy, three letters are tried before two.
\<close>

definition dot_ext_at :: "tables \<Rightarrow> ustr \<Rightarrow> nat \<Rightarrow> nat option" where
  "dot_ext_at T s i =
     (if lit_at T (lit ''.'') s i \<and> az T s (i + 1) \<and> az T s (i + 2) then
        (case (if az T s (i + 3) then suffix_end T s i (i + 4) else None) of
           Some n \<Rightarrow> Some n
         | None \<Rightarrow> suffix_end T s i (i + 3))
      else None)"

text \<open>
  The five alternatives of \<open>LINK_REGEX\<close> in their order;
  \<open>https?://\<close> tries the optional \<open>s\<close> first.
\<close>

definition link_at :: "tables \<Rightarrow> ustr \<Rightarrow> nat \<Rightarrow> nat option" where
  "link_at T s i =
     (if lit_at T (lit ''https://'') s i then Some 8
      else if lit_at T (lit ''http://'') s i then Some 7
      else if lit_at T (lit ''t.me/'') s i then Some 5
      else if lit_at T (lit ''telegram.me/'') s i then Some 12
      else if at_boundary T s i \<and> lit_at T (lit ''www.'') s i then Some 4
      else dot_ext_at T s i)"

definition link_search :: "tables \<Rightarrow> ustr \<Rightarrow> ustr option" where
  "link_search T = re_search (link_at T)"

text \<open>\<open>a in b\<close> on two strings: \<open>a\<close> occurs in \<open>b\<close> at some position.\<close>

definition str_in :: "ustr \<Rightarrow> ustr \<Rightarrow> bool" where
  "str_in a b = list_ex (\<lambda>i. i + length a \<le> length b \<and> take (length a) (drop i b) = a) [0..<Suc (length b)]"

fun allowed_hit :: "tables \<Rightarrow> ustr \<Rightarrow> ustr list \<Rightarrow> bool" where
  "allowed_hit T text [] = False"
| "allowed_hit T text (domain # allowed) =
     (if str_in (lower T domain) (lower T text) then True else allowed_hit T text allowed)"

definition contains_link :: "tables \<Rightarrow> ustr \<Rightarrow> ustr list \<Rightarrow> bool \<times> ustr" where
  "contains_link T text allowed =
     (if text = [] then (False, [])
      else case link_search T text of
        None \<Rightarrow> (False, [])
      | Some g \<Rightarrow> if allowed_hit T text allowed then (False, []) else (True, g))"

section \<open>Settings store\<close>

subsection \<open>Values, dicts and list objects\<close>

text \<open>
  The values a settings dict holds are those of \<open>DEFAULTS\<close>: booleans, integers, strings
  and lists. A list is an object with an identity: a dict value refers to it by address, and
  its contents live in the state (\<open>str_lists\<close> for lists of strings, \<open>int_lists\<close> for lists
  of user identifiers). A dict is an association list in insertion order; assigning a key is
  \<open>AList.update\<close>, which replaces in place or appends.
\<close>

type_synonym addr = nat

datatype val = VBool bool | VInt int | VStr ustr | VStrs addr | VInts addr

type_synonym settings = "(string \<times> val) list"

datatype json = JNull | JBool bool | JNum int | JStr ustr | JArr "json list" | JObj "(ustr \<times> json) list"

text \<open>
  What was raised: an instance of \<open>Exception\<close>, which \<open>except Exception\<close> catches, or
  a \<open>BaseException\<close> outside it (\<open>KeyboardInterrupt\<close>, \<open>SystemExit\<close>,
  \<open>asyncio.CancelledError\<close>), which it does not. The string is the class name.
\<close>

datatype exc = Exception string | NonException string

text \<open>An inline keyboard: its buttons, each a label and its \<open>callback_data\<close>.\<close>

type_synonym keyboard = "(ustr \<times> string) list"

text \<open>
  Everything the program does to the outside, in the order it happens. An event stands for
  the call being made, whether it then returns or raises.
\<close>

datatype event =
    Save json
  | GetChatMember int int
  | DeleteMessage int int
  | RestrictChatMember int int int
  | BanChatMember int int
  | SendMessage int ustr
  | Reply ustr "keyboard option"

record state =
  str_lists :: "addr \<Rightarrow> ustr list"
  int_lists :: "addr \<Rightarrow> int list"
  data :: "(ustr \<times> settings) list"
  trace :: "event list"

definition emit :: "event \<Rightarrow> state \<Rightarrow> state" where
  "emit e st = st\<lparr>trace := trace st @ [e]\<rparr>"

text \<open>A call made for its effect: it returns nothing, or raises.\<close>

definition raise_or_return :: "exc option \<Rightarrow> exc + unit" where
  "raise_or_return r = (case r of None \<Rightarrow> Inr () | Some e \<Rightarrow> Inl e)"

definition OWNER_ID :: int where
  "OWNER_ID = 7322925570"

text \<open>
  The three \<open>[]\<close> of the \<open>DEFAULTS\<close> literal are evaluated once, when the module is
  loaded: \<open>banned_words\<close> is the string list at address 0, \<open>allowed_links\<close> the one at
  address 1, \<open>bot_admins\<close> the integer list at address 0.
\<close>

definition DEFAULTS :: settings where
  "DEFAULTS =
     [(''banned_words'', VStrs 0),
      (''allowed_links'', VStrs 1),
      (''link_protection'', VBool True),
      (''action_words'', VStr (lit ''mute'')),
      (''mute_seconds_words'', VInt 600),
      (''action_links'', VStr (lit ''mute'')),
      (''mute_seconds_links'', VInt 600),
      (''enabled'', VBool True),
      (''mode'', VStr (lit ''admins'')),
      (''bot_admins'', VInts 0)]"

text \<open>
  \<open>dict.copy()\<close> is a shallow copy: a new dict with the same keys and the same values. A
  value that is a reference is copied as a reference, the list it refers to is not copied.
\<close>

definition dict_copy :: "settings \<Rightarrow> settings" where
  "dict_copy d = d"

text \<open>
  The state right after the module is loaded, when \<open>load_data\<close> gave the empty mapping:
  the lists of \<open>DEFAULTS\<close> are empty and no chat has an entry.
\<close>

definition init_state :: state where
  "init_state = \<lparr> str_lists = (\<lambda>a. []), int_lists = (\<lambda>a. []), data = [], trace = [] \<rparr>"


subsection \<open>\<open>load_data\<close> and \<open>save_data\<close>\<close>

text \<open>
  The file system as the program sees it: whether \<open>data.json\<close> exists, what opening it
  and \<open>json.load\<close> give (a parsed value or what they raise), and what opening it for
  writing and \<open>json.dump\<close> of a value raise, if anything.
\<close>

record fs =
  file_exists :: bool
  read_json :: "exc + json"
  write_json :: "json \<Rightarrow> exc option"

definition load_data :: "fs \<Rightarrow> exc + json" where
  "load_data F =
     (if \<not> file_exists F then Inr (JObj [])
      else case read_json F of
        Inr j \<Rightarrow> Inr j
      | Inl (Exception e) \<Rightarrow> Inr (JObj [])
      | Inl (NonException e) \<Rightarrow> Inl (NonException e))"

text \<open>\<open>json.dump\<close> writes a list by its contents.\<close>

fun json_of :: "state \<Rightarrow> val \<Rightarrow> json" where
  "json_of st (VBool b) = JBool b"
| "json_of st (VInt i) = JNum i"
| "json_of st (VStr s) = JStr s"
| "json_of st (VStrs a) = JArr (map JStr (str_lists st a))"
| "json_of st (VInts a) = JArr (map JNum (int_lists st a))"

definition dump :: "state \<Rightarrow> json" where
  "dump st = JObj (map (\<lambda>(chat, s). (chat, JObj (map (\<lambda>(k, v). (lit k, json_of st v)) s))) (data st))"

text \<open>\<open>save_data\<close> has no handler: what the write raises is raised to the caller.\<close>

definition save_data :: "fs \<Rightarrow> state \<Rightarrow> (exc + unit) \<times> state" where
  "save_data F st = (raise_or_return (write_json F (dump st)), emit (Save (dump st)) st)"

subsection \<open>\<open>ensure_chat_settings\<close>\<close>

text \<open>
  The entry is assigned before \<open>save_data\<close> is called, so it is in the store also when
  the write raises.
\<close>

definition ensure_chat_settings :: "fs \<Rightarrow> ustr \<Rightarrow> state \<Rightarrow> (exc + settings) \<times> state" where
  "ensure_chat_settings F chat_id st =
     (case map_of (data st) chat_id of
        None \<Rightarrow>
          (case save_data F (st\<lparr>data := AList.update chat_id (dict_copy DEFAULTS) (data st)\<rparr>) of
             (Inl e, st') \<Rightarrow> (Inl e, st')
           | (Inr u, st') \<Rightarrow> (Inr (dict_copy DEFAULTS), st'))
      | Some s \<Rightarrow> (Inr s, st))"

subsection \<open>Reading a settings dict\<close>

definition py_get :: "settings \<Rightarrow> string \<Rightarrow> val \<Rightarrow> val" where
  "py_get d k dflt = (case map_of d k of None \<Rightarrow> dflt | Some v \<Rightarrow> v)"

fun truthy :: "state \<Rightarrow> val \<Rightarrow> bool" where
  "truthy st (VBool b) = b"
| "truthy st (VInt i) = (i \<noteq> 0)"
| "truthy st (VStr s) = (s \<noteq> [])"
| "truthy st (VStrs a) = (str_lists st a \<noteq> [])"
| "truthy st (VInts a) = (int_lists st a \<noteq> [])"

text \<open>
  Iterating a value as a list of strings, as \<open>compile_patterns\<close> and \<open>contains_link\<close> do:
  a string iterates over its characters, a number is not iterable, and an element that is
  not a string has no \<open>strip\<close> or \<open>lower\<close>.
\<close>

fun iter_strs :: "state \<Rightarrow> val \<Rightarrow> exc + ustr list" where
  "iter_strs st (VStrs a) = Inr (str_lists st a)"
| "iter_strs st (VStr s) = Inr (map (\<lambda>c. [c]) s)"
| "iter_strs st (VInts a) = (if int_lists st a = [] then Inr [] else Inl (Exception ''AttributeError''))"
| "iter_strs st v = Inl (Exception ''TypeError'')"

definition list_field :: "state \<Rightarrow> settings \<Rightarrow> string \<Rightarrow> exc + ustr list" where
  "list_field st d k = (case map_of d k of None \<Rightarrow> Inr [] | Some v \<Rightarrow> iter_strs st v)"

text \<open>\<open>user_id in v\<close> for an integer \<open>user_id\<close>.\<close>

fun int_in :: "state \<Rightarrow> int \<Rightarrow> val \<Rightarrow> exc + bool" where
  "int_in st u (VInts a) = Inr (u \<in> set (int_lists st a))"
| "int_in st u (VStrs a) = Inr False"
| "int_in st u v = Inl (Exception ''TypeError'')"

section \<open>Authorization\<close>

text \<open>
  The messaging platform, its client library and the clock are outside the repository. Each
  call either returns or raises; what it does is a parameter. \<open>get_chat_member\<close> stands
  for the body of the \<open>try\<close> in \<open>is_user_admin\<close>: the query and
  \<open>member.is_chat_admin()\<close>. \<open>until_date\<close> is
  \<open>datetime.utcnow() + timedelta(seconds=n)\<close>. The last four are the steps of building a
  keyboard: \<open>InlineKeyboardMarkup(row_width=n)\<close>, looking up its \<open>add\<close>,
  \<open>InlineKeyboardButton(label, callback_data=d)\<close>, and calling \<open>add\<close> on the buttons.
\<close>

record platform =
  get_chat_member :: "int \<Rightarrow> int \<Rightarrow> exc + bool"
  delete_message :: "int \<Rightarrow> int \<Rightarrow> exc option"
  restrict_chat_member :: "int \<Rightarrow> int \<Rightarrow> int \<Rightarrow> exc option"
  ban_chat_member :: "int \<Rightarrow> int \<Rightarrow> exc option"
  send_message :: "int \<Rightarrow> ustr \<Rightarrow> exc option"
  reply :: "ustr \<Rightarrow> keyboard option \<Rightarrow> exc option"
  until_date :: "int \<Rightarrow> exc + int"
  new_markup :: "int \<Rightarrow> exc option"
  add_method :: "exc option"
  new_button :: "ustr \<Rightarrow> string \<Rightarrow> exc option"
  add_buttons :: "keyboard \<Rightarrow> exc option"

definition is_user_admin :: "platform \<Rightarrow> int \<Rightarrow> int \<Rightarrow> state \<Rightarrow> (exc + bool) \<times> state" where
  "is_user_admin P chat_id user_id st =
     (if user_id = OWNER_ID then (Inr True, st)
      else case get_chat_member P chat_id user_id of
        Inr b \<Rightarrow> (Inr b, emit (GetChatMember chat_id user_id) st)
      | Inl (Exception e) \<Rightarrow> (Inr False, emit (GetChatMember chat_id user_id) st)
      | Inl (NonException e) \<Rightarrow> (Inl (NonException e), emit (GetChatMember chat_id user_id) st))"

text \<open>
  \<open>a or b\<close> evaluates \<open>b\<close> only when \<open>a\<close> is false, and an error in \<open>a\<close> is raised before
  the owner is looked at.
\<close>

definition is_bot_admin :: "fs \<Rightarrow> ustr \<Rightarrow> int \<Rightarrow> state \<Rightarrow> (exc + bool) \<times> state" where
  "is_bot_admin F chat_id user_id st =
     (case ensure_chat_settings F chat_id st of
        (Inl e, st') \<Rightarrow> (Inl e, st')
      | (Inr settings, st') \<Rightarrow>
          (case (case map_of settings ''bot_admins'' of None \<Rightarrow> Inr False | Some v \<Rightarrow> int_in st' user_id v) of
             Inl e \<Rightarrow> (Inl e, st')
           | Inr b \<Rightarrow> (Inr (b \<or> user_id = OWNER_ID), st')))"

section \<open>Messages\<close>

record user =
  user_id :: int
  username :: "ustr option"
  full_name :: ustr

record message =
  chat_type :: string
  chat_id :: int
  message_id :: int
  from_user :: "user option"
  msg_text :: "ustr option"
  caption :: "ustr option"

text \<open>\<open>str(n)\<close> and \<open>f"{n}"\<close> of an integer.\<close>

fun digits :: "nat \<Rightarrow> ustr" where
  "digits n = (if n < 10 then [48 + int n] else digits (n div 10) @ [48 + int (n mod 10)])"

declare digits.simps [simp del]

definition str_int :: "int \<Rightarrow> ustr" where
  "str_int i = (if i < 0 then 45 # digits (nat (- i)) else digits (nat i))"

section \<open>Admin panel\<close>

definition rejection :: ustr where
  "rejection = [42, 42, 1058, 1086, 1083, 1100, 1082, 1086, 32, 79, 119, 110, 101, 114, 32, 1080, 32,
     1073, 1086, 1090, 45, 1072, 1076, 1084, 1080, 1085, 1099, 32, 1084, 1086, 1075, 1091, 1090, 32,
     1086, 1090, 1082, 1088, 1099, 1074, 1072, 1090, 1100, 32, 1087, 1072, 1085, 1077, 1083, 1100, 42, 42]"

definition panel_title :: ustr where
  "panel_title = [42, 42, 1040, 1076, 1084, 1080, 1085, 45, 1087, 1072, 1085, 1077, 1083, 1100, 58, 42, 42]"

text \<open>The six buttons of \<open>admin_panel_keyboard\<close>, in the order they are written.\<close>

definition panel_buttons :: keyboard where
  "panel_buttons =
     [([9989, 32, 1042, 1082, 1083, 47, 1042, 1099, 1082, 1083], ''toggle_enabled''),
      ([9881, 65039, 32, 1056, 1077, 1078, 1080, 1084], ''toggle_mode''),
      ([128296, 32, 1053, 1072, 1082, 1072, 1079, 1072, 1085, 1080, 1103], ''set_actions''),
      ([128221, 32, 1047, 1072, 1087, 1088, 1077, 1097, 1105, 1085, 1085, 1099, 1077, 32, 1089, 1083,
        1086, 1074, 1072], ''edit_words''),
      ([128279, 32, 1041, 1077, 1083, 1099, 1081, 32, 1089, 1087, 1080, 1089, 1086, 1082, 32, 1089,
        1089, 1099, 1083, 1086, 1082], ''edit_links''),
      ([128081, 32, 1059, 1087, 1088, 1072, 1074, 1083, 1077, 1085, 1080, 1077, 32, 1072, 1076, 1084,
        1080, 1085, 1072, 1084, 1080], ''manage_admins'')]"

text \<open>The arguments of a call are evaluated from the left; the first that raises ends it.\<close>

fun build_buttons :: "platform \<Rightarrow> keyboard \<Rightarrow> exc option" where
  "build_buttons P [] = None"
| "build_buttons P (b # bs) =
     (case new_button P (fst b) (snd b) of
        Some e \<Rightarrow> Some e
      | None \<Rightarrow> build_buttons P bs)"

text \<open>
  \<open>admin_panel_keyboard\<close>: the markup is made, \<open>kb.add\<close> is looked up, the buttons are
  made, \<open>add\<close> is called on them, and the markup is returned.
\<close>

definition admin_panel_keyboard :: "platform \<Rightarrow> exc + keyboard" where
  "admin_panel_keyboard P =
     (case new_markup P 2 of
        Some e \<Rightarrow> Inl e
      | None \<Rightarrow>
          (case add_method P of
             Some e \<Rightarrow> Inl e
           | None \<Rightarrow>
               (case build_buttons P panel_buttons of
                  Some e \<Rightarrow> Inl e
                | None \<Rightarrow>
                    (case add_buttons P panel_buttons of
                       Some e \<Rightarrow> Inl e
                     | None \<Rightarrow> Inr panel_buttons))))"

text \<open>
  \<open>show_admin_panel\<close>. \<open>message.from_user.id\<close> is evaluated before \<open>is_bot_admin\<close> is
  called, and the keyboard is built before \<open>message.reply\<close> is called with it.
\<close>

definition show_admin_panel :: "fs \<Rightarrow> platform \<Rightarrow> message \<Rightarrow> state \<Rightarrow> (exc + unit) \<times> state" where
  "show_admin_panel F P m st =
     (case from_user m of
        None \<Rightarrow> (Inl (Exception ''AttributeError''), st)
      | Some u \<Rightarrow>
          (case is_bot_admin F (str_int (chat_id m)) (user_id u) st of
             (Inl e, st') \<Rightarrow> (Inl e, st')
           | (Inr False, st') \<Rightarrow>
               (raise_or_return (reply P rejection None), emit (Reply rejection None) st')
           | (Inr True, st') \<Rightarrow>
               (case admin_panel_keyboard P of
                  Inl e \<Rightarrow> (Inl e, st')
                | Inr kb \<Rightarrow>
                    (raise_or_return (reply P panel_title (Some kb)),
                     emit (Reply panel_title (Some kb)) st'))))"

section \<open>Moderation engine\<close>

definition reason_word :: ustr where
  "reason_word = [1079, 1072, 1087, 1088, 1077, 1097, 1105, 1085, 1085, 1086, 1077, 32, 1089, 1083, 1086, 1074, 1086]"

definition reason_link :: ustr where
  "reason_link = [1089, 1089, 1099, 1083, 1082, 1091]"

definition minut :: ustr where
  "minut = [32, 1084, 1080, 1085, 1091, 1090]"

definition sekund :: ustr where
  "sekund = [32, 1089, 1077, 1082, 1091, 1085, 1076]"

definition notice_head :: ustr where
  "notice_head = [128683, 32, 42, 42, 1055, 1086, 1083, 1100, 1079, 1086, 1074, 1072, 1090, 1077, 1083, 1100, 32]"

definition notice_wrote :: ustr where
  "notice_wrote = [32, 1085, 1072, 1087, 1080, 1089, 1072, 1083, 32]"

definition notice_tail :: ustr where
  "notice_tail = [46, 42, 42, 10, 42, 42, 1055, 1086, 1078, 1072, 1083, 1091, 1081, 1089, 1090, 1072, 44, 32,
     1089, 1086, 1073, 1083, 1102, 1076, 1072, 1081, 1090, 1077, 32, 1087, 1088, 1072, 1074, 1080, 1083,
     1072, 32, 1095, 1072, 1090, 1072, 33, 42, 42]"

definition warn_text :: ustr where
  "warn_text = [32, 1080, 32, 1087, 1086, 1083, 1091, 1095, 1080, 1083, 32, 1087, 1088, 1077, 1076, 1091,
     1087, 1088, 1077, 1078, 1076, 1077, 1085, 1080, 1077]"

definition mute_text :: ustr where
  "mute_text = [32, 1080, 32, 1087, 1086, 1083, 1091, 1095, 1080, 1083, 32, 1084, 1091, 1090, 32, 1085, 1072, 32]"

definition ban_text :: ustr where
  "ban_text = [32, 1080, 32, 1073, 1099, 1083, 32, 1079, 1072, 1073, 1083, 1086, 1082, 1080, 1088, 1086,
     1074, 1072, 1085]"

text \<open>\<open>message.text or message.caption or ""\<close>.\<close>

definition message_text :: "message \<Rightarrow> ustr" where
  "message_text m =
     (let cap = (case caption m of None \<Rightarrow> [] | Some c \<Rightarrow> c) in
      case msg_text m of
        None \<Rightarrow> cap
      | Some t \<Rightarrow> if t \<noteq> [] then t else cap)"

definition display_name :: "user \<Rightarrow> ustr" where
  "display_name u =
     (case username u of
        None \<Rightarrow> full_name u
      | Some n \<Rightarrow> if n \<noteq> [] then 64 # n else full_name u)"

text \<open>
  The two checks. An allowlist that cannot be iterated as strings raises only where the loop
  of \<open>contains_link\<close> is reached, that is where the text has a link.
\<close>

definition detect :: "tables \<Rightarrow> state \<Rightarrow> settings \<Rightarrow> ustr \<Rightarrow> exc + (bool \<times> bool)" where
  "detect T st settings txt =
     (case list_field st settings ''banned_words'' of
        Inl e \<Rightarrow> Inl e
      | Inr words \<Rightarrow>
          (let is_banned = fst (contains_banned T txt (compile_patterns T words)) in
           if truthy st (py_get settings ''link_protection'' (VBool True)) then
             (case list_field st settings ''allowed_links'' of
                Inr allowed \<Rightarrow> Inr (is_banned, fst (contains_link T txt allowed))
              | Inl e \<Rightarrow> if fst (contains_link T txt []) then Inl e else Inr (is_banned, False))
           else Inr (is_banned, False)))"

text \<open>The \<open>if is_banned: ... elif found_link: ... else: return\<close> of \<open>mod_message\<close>.\<close>

definition select_action :: "settings \<Rightarrow> bool \<Rightarrow> bool \<Rightarrow> (val \<times> val \<times> ustr) option" where
  "select_action settings is_banned found_link =
     (if is_banned then
        Some (py_get settings ''action_words'' (VStr (lit ''mute'')),
              py_get settings ''mute_seconds_words'' (VInt 600),
              reason_word)
      else if found_link then
        Some (py_get settings ''action_links'' (VStr (lit ''mute'')),
              py_get settings ''mute_seconds_links'' (VInt 600),
              reason_link)
      else None)"

text \<open>
  A value used as a number: its integer and how an f-string shows it. A boolean is an
  integer in Python; a string or a list makes \<open>//\<close> raise.
\<close>

fun numeric :: "val \<Rightarrow> (int \<times> ustr) option" where
  "numeric (VInt i) = Some (i, str_int i)"
| "numeric (VBool b) = Some (if b then 1 else 0, lit (if b then ''True'' else ''False''))"
| "numeric v = None"

text \<open>\<open>minutes_text\<close>; \<open>//\<close> rounds down, as \<open>div\<close> on \<open>int\<close> does.\<close>

definition minutes_text :: "int \<Rightarrow> ustr \<Rightarrow> ustr" where
  "minutes_text mute_seconds shown =
     (let minutes = mute_seconds div 60 in
      if minutes \<ge> 1 then str_int minutes @ minut else shown @ sekund)"

definition send :: "platform \<Rightarrow> int \<Rightarrow> ustr \<Rightarrow> state \<Rightarrow> (exc + unit) \<times> state" where
  "send P chat txt st = (raise_or_return (send_message P chat txt), emit (SendMessage chat txt) st)"

text \<open>Lines 212 to 230 of \<open>mod_message\<close>: the duration text and the three actions.\<close>

definition punish ::
  "platform \<Rightarrow> int \<Rightarrow> int \<Rightarrow> ustr \<Rightarrow> val \<Rightarrow> val \<Rightarrow> ustr \<Rightarrow> state \<Rightarrow> (exc + unit) \<times> state" where
  "punish P chat uid name action mute_seconds reason st =
     (case numeric mute_seconds of
        None \<Rightarrow> (Inl (Exception ''TypeError''), st)
      | Some (secs, shown) \<Rightarrow>
          if action = VStr (lit ''warn'') then
            send P chat (notice_head @ name @ notice_wrote @ reason @ warn_text @ notice_tail) st
          else if action = VStr (lit ''mute'') then
            (case until_date P secs of
               Inl e \<Rightarrow> (Inl e, st)
             | Inr until \<Rightarrow>
                 (let st1 = emit (RestrictChatMember chat uid until) st in
                  case restrict_chat_member P chat uid until of
                    Some (NonException e) \<Rightarrow> (Inl (NonException e), st1)
                  | _ \<Rightarrow>
                      send P chat
                        (notice_head @ name @ notice_wrote @ reason @ mute_text @
                         minutes_text secs shown @ notice_tail) st1))
          else if action = VStr (lit ''ban'') then
            (let st1 = emit (BanChatMember chat uid) st in
             case ban_chat_member P chat uid of
               Some (NonException e) \<Rightarrow> (Inl (NonException e), st1)
             | _ \<Rightarrow>
                 send P chat (notice_head @ name @ notice_wrote @ reason @ ban_text @ notice_tail) st1)
          else (Inr (), st))"

text \<open>The mode check: in mode \<open>admins\<close> the author is looked up.\<close>

definition admin_exempt :: "platform \<Rightarrow> message \<Rightarrow> settings \<Rightarrow> state \<Rightarrow> (exc + bool) \<times> state" where
  "admin_exempt P m settings st =
     (if py_get settings ''mode'' (VStr (lit ''admins'')) = VStr (lit ''admins'') then
        (case from_user m of
           None \<Rightarrow> (Inl (Exception ''AttributeError''), st)
         | Some u \<Rightarrow> is_user_admin P (chat_id m) (user_id u) st)
      else (Inr False, st))"

text \<open>Lines 183 to 230 of \<open>mod_message\<close>: detection, deletion, and the action.\<close>

definition moderate :: "tables \<Rightarrow> platform \<Rightarrow> message \<Rightarrow> settings \<Rightarrow> state \<Rightarrow> (exc + unit) \<times> state" where
  "moderate T P m settings st =
     (case detect T st settings (message_text m) of
        Inl e \<Rightarrow> (Inl e, st)
      | Inr (is_banned, found_link) \<Rightarrow>
          if \<not> is_banned \<and> \<not> found_link then (Inr (), st)
          else
            (let st1 = emit (DeleteMessage (chat_id m) (message_id m)) st in
             case delete_message P (chat_id m) (message_id m) of
               Some (NonException e) \<Rightarrow> (Inl (NonException e), st1)
             | _ \<Rightarrow>
                 (case from_user m of
                    None \<Rightarrow> (Inl (Exception ''AttributeError''), st1)
                  | Some u \<Rightarrow>
                      (case select_action settings is_banned found_link of
                         None \<Rightarrow> (Inr (), st1)
                       | Some (action, mute_seconds, reason) \<Rightarrow>
                           punish P (chat_id m) (user_id u) (display_name u)
                             action mute_seconds reason st1))))"

definition mod_message :: "tables \<Rightarrow> fs \<Rightarrow> platform \<Rightarrow> message \<Rightarrow> state \<Rightarrow> (exc + unit) \<times> state" where
  "mod_message T F P m st =
     (if chat_type m \<noteq> ''group'' \<and> chat_type m \<noteq> ''supergroup'' then (Inr (), st)
      else
        (case ensure_chat_settings F (str_int (chat_id m)) st of
           (Inl e, st1) \<Rightarrow> (Inl e, st1)
         | (Inr settings, st1) \<Rightarrow>
             if \<not> truthy st1 (py_get settings ''enabled'' (VBool True)) then (Inr (), st1)
             else
               (case admin_exempt P m settings st1 of
                  (Inl e, st2) \<Rightarrow> (Inl e, st2)
                | (Inr True, st2) \<Rightarrow> (Inr (), st2)
                | (Inr False, st2) \<Rightarrow> moderate T P m settings st2)))"

section \<open>Properties, as the specification words them\<close>

text \<open>
  The word occurs in the text as a token of its own: some stretch of the text equals it up to
  letter case, and the characters next to that stretch, if any, are not word characters.
\<close>

definition standalone_occurrence :: "tables \<Rightarrow> ustr \<Rightarrow> ustr \<Rightarrow> bool" where
  "standalone_occurrence T w txt =
     (\<exists>pre occ post. txt = pre @ occ @ post \<and> list_all2 (ci_eq T) w occ \<and>
        (pre = [] \<or> \<not> word_char T (last pre)) \<and> (post = [] \<or> \<not> word_char T (hd post)))"

text \<open>
  A word that begins and ends with a word character in whatever letter case it is written,
  and has no space in it.
\<close>

definition word_like :: "tables \<Rightarrow> ustr \<Rightarrow> bool" where
  "word_like T w =
     (w \<noteq> [] \<and> 32 \<notin> set w \<and>
      (\<forall>c. ci_eq T (hd w) c \<longrightarrow> word_char T c) \<and> (\<forall>c. ci_eq T (last w) c \<longrightarrow> word_char T c))"

text \<open>\<open>a\<close> is a substring of \<open>b\<close>.\<close>

definition occurs_in :: "ustr \<Rightarrow> ustr \<Rightarrow> bool" where
  "occurs_in a b = (\<exists>pre post. b = pre @ a @ post)"

text \<open>The lists of \<open>DEFAULTS\<close> are as the module created them: empty.\<close>

definition template_intact :: "state \<Rightarrow> bool" where
  "template_intact st = (str_lists st 0 = [] \<and> str_lists st 1 = [] \<and> int_lists st 0 = [])"

text \<open>What \<open>json.dump\<close> writes for a chat that has the defaults.\<close>

definition DEFAULTS_json :: json where
  "DEFAULTS_json =
     JObj [(lit ''banned_words'', JArr []),
           (lit ''allowed_links'', JArr []),
           (lit ''link_protection'', JBool True),
           (lit ''action_words'', JStr (lit ''mute'')),
           (lit ''mute_seconds_words'', JNum 600),
           (lit ''action_links'', JStr (lit ''mute'')),
           (lit ''mute_seconds_links'', JNum 600),
           (lit ''enabled'', JBool True),
           (lit ''mode'', JStr (lit ''admins'')),
           (lit ''bot_admins'', JArr [])]"

definition saved_entries :: "state \<Rightarrow> (ustr \<times> json) list" where
  "saved_entries st = (case dump st of JObj es \<Rightarrow> es | _ \<Rightarrow> [])"

text \<open>The store with the default entry of a chat added at its end.\<close>

definition with_defaults :: "ustr \<Rightarrow> state \<Rightarrow> state" where
  "with_defaults chat st = st\<lparr>data := data st @ [(chat, DEFAULTS)]\<rparr>"

text \<open>The settings a chat has, or gets on its first reference.\<close>

definition chat_settings :: "state \<Rightarrow> ustr \<Rightarrow> settings" where
  "chat_settings st chat = (case map_of (data st) chat of None \<Rightarrow> DEFAULTS | Some s \<Rightarrow> s)"

text \<open>The user is not in the bot-admin list of these settings.\<close>

definition not_listed :: "state \<Rightarrow> settings \<Rightarrow> int \<Rightarrow> bool" where
  "not_listed st s uid =
     (case map_of s ''bot_admins'' of None \<Rightarrow> True | Some v \<Rightarrow> int_in st uid v = Inr False)"

section \<open>Concrete inputs\<close>

text \<open>
  A platform on which the membership query, the restriction and the keyboard markup fail
  and everything else succeeds, a message with a banned word and a link from an ordinary
  user in a supergroup, and a store in which that chat bans for words and warns for links.
\<close>

definition failing_platform :: platform where
  "failing_platform =
     \<lparr> get_chat_member = (\<lambda>c u. Inl (Exception ''TelegramBadRequest'')),
       delete_message = (\<lambda>c i. None),
       restrict_chat_member = (\<lambda>c u t. Some (Exception ''TelegramForbiddenError'')),
       ban_chat_member = (\<lambda>c u. None),
       send_message = (\<lambda>c t. None),
       reply = (\<lambda>t k. None),
       until_date = (\<lambda>n. Inr (1000 + n)),
       new_markup = (\<lambda>n. Some (Exception ''ValidationError'')),
       add_method = None,
       new_button = (\<lambda>l d. None),
       add_buttons = (\<lambda>k. None) \<rparr>"

definition bob :: user where
  "bob = \<lparr> user_id = 5, username = Some (lit ''bob''), full_name = lit ''Bob B'' \<rparr>"

definition sample_message :: message where
  "sample_message =
     \<lparr> chat_type = ''supergroup'', chat_id = -100, message_id = 9, from_user = Some bob,
       msg_text = Some (lit ''Ban this https://x.io''), caption = None \<rparr>"

definition sample_settings :: settings where
  "sample_settings =
     [(''banned_words'', VStrs 7), (''allowed_links'', VStrs 8),
      (''action_words'', VStr (lit ''ban'')), (''action_links'', VStr (lit ''warn'')),
      (''mute_seconds_words'', VInt 45)]"

definition sample_state :: state where
  "sample_state =
     \<lparr> str_lists = (\<lambda>a. if a = 7 then [lit ''ban''] else []), int_lists = (\<lambda>a. []),
       data = [(str_int (-100), sample_settings)], trace = [] \<rparr>"

text \<open>Three disks: no file, a file that does not parse, and a file that does.\<close>

definition missing_file :: fs where
  "missing_file =
     \<lparr> file_exists = False, read_json = Inl (Exception ''FileNotFoundError''),
       write_json = (\<lambda>j. None) \<rparr>"

definition corrupt_file :: fs where
  "corrupt_file =
     \<lparr> file_exists = True, read_json = Inl (Exception ''JSONDecodeError''),
       write_json = (\<lambda>j. None) \<rparr>"

definition good_file :: fs where
  "good_file =
     \<lparr> file_exists = True, read_json = Inr (JObj [(lit ''-100'', DEFAULTS_json)]),
       write_json = (\<lambda>j. None) \<rparr>"


section \<open>Verification\<close>

subsection \<open>Banned words\<close>

lemma first_match_None_iff: "first_match at js = None \<longleftrightarrow> (\<forall>i\<in>set js. at i = None)"
  by (induction js) (auto split: option.splits)

lemma first_match_SomeD: "first_match at js = Some (i, n) \<Longrightarrow> i \<in> set js \<and> at i = Some n"
  by (induction js) (auto split: option.splits)

lemma case_match_None: "(case x of None \<Rightarrow> None | Some (i, n) \<Rightarrow> Some (f i n)) = None \<longleftrightarrow> x = None"
  by (cases x) auto

lemma upt_all: "(\<forall>i\<in>set [0..<Suc n]. P i) \<longleftrightarrow> (\<forall>i\<le>n. P i)"
  by (auto simp: less_Suc_eq_le)

lemma re_search_found_iff: "re_search at s \<noteq> None \<longleftrightarrow> (\<exists>i\<le>length s. at s i \<noteq> None)"
proof -
  have "re_search at s = None \<longleftrightarrow> first_match (at s) [0..<Suc (length s)] = None"
    unfolding re_search_def by (rule case_match_None)
  also have "\<dots> \<longleftrightarrow> (\<forall>i\<in>set [0..<Suc (length s)]. at s i = None)"
    by (rule first_match_None_iff)
  also have "\<dots> \<longleftrightarrow> (\<forall>i\<le>length s. at s i = None)"
    by (rule upt_all)
  finally show ?thesis by simp
qed

lemma at_boundary_append:
  "at_boundary T (pre @ rest) (length pre) =
     ((pre \<noteq> [] \<and> word_char T (last pre)) \<noteq> (rest \<noteq> [] \<and> word_char T (hd rest)))"
  by (cases pre rule: rev_cases; cases rest) (simp_all add: at_boundary_def nth_append)

lemma lit_at_append:
  "lit_at T w (pre @ rest) (length pre) =
     (\<exists>occ post. rest = occ @ post \<and> list_all2 (ci_eq T) w occ)"
proof
  assume "lit_at T w (pre @ rest) (length pre)"
  then have "length w \<le> length rest" "list_all2 (ci_eq T) w (take (length w) rest)"
    by (simp_all add: lit_at_def)
  moreover have "rest = take (length w) rest @ drop (length w) rest" by simp
  ultimately show "\<exists>occ post. rest = occ @ post \<and> list_all2 (ci_eq T) w occ" by blast
next
  assume "\<exists>occ post. rest = occ @ post \<and> list_all2 (ci_eq T) w occ"
  then obtain occ post where r: "rest = occ @ post" and m: "list_all2 (ci_eq T) w occ" by blast
  from m have "length occ = length w" by (simp add: list_all2_lengthD)
  with r m show "lit_at T w (pre @ rest) (length pre)" by (simp add: lit_at_def)
qed

lemma ci_match_edges:
  assumes "word_like T w" "list_all2 (ci_eq T) w occ"
  shows "occ \<noteq> [] \<and> word_char T (hd occ) \<and> word_char T (last occ)"
proof -
  from assms have ne: "w \<noteq> []" "occ \<noteq> []" and len: "length w = length occ"
    by (auto simp: word_like_def list_all2_lengthD)
  from assms(2) ne have "ci_eq T (hd w) (hd occ)"
    by (cases w; cases occ) simp_all
  moreover from assms(2) ne len have "ci_eq T (last w) (last occ)"
    by (simp add: last_conv_nth list_all2_nthD)
  ultimately show ?thesis using assms(1) ne by (simp add: word_like_def)
qed

lemma bounded_at_iff:
  assumes "word_like T w"
  shows "(\<exists>i\<le>length s. pattern_at T (Bounded w) s i \<noteq> None) \<longleftrightarrow> standalone_occurrence T w s"
proof
  assume "\<exists>i\<le>length s. pattern_at T (Bounded w) s i \<noteq> None"
  then obtain i where i: "i \<le> length s" and b1: "at_boundary T s i" and l: "lit_at T w s i"
    and b2: "at_boundary T s (i + length w)"
    by (auto split: if_splits)
  define pre where "pre = take i s"
  define rest where "rest = drop i s"
  have s: "s = pre @ rest" and lp: "length pre = i" using i by (simp_all add: pre_def rest_def)
  from l obtain occ post where r: "rest = occ @ post" and m: "list_all2 (ci_eq T) w occ"
    unfolding s lp[symmetric] lit_at_append by blast
  from ci_match_edges[OF assms m] have e: "occ \<noteq> []" "word_char T (hd occ)" "word_char T (last occ)"
    by simp_all
  from m have lo: "length occ = length w" by (simp add: list_all2_lengthD)
  from b1 have "at_boundary T (pre @ (occ @ post)) (length pre)" by (simp add: s r lp)
  then have p: "pre = [] \<or> \<not> word_char T (last pre)"
    unfolding at_boundary_append using e by auto
  from b2 have "at_boundary T ((pre @ occ) @ post) (length (pre @ occ))" by (simp add: s r lp lo)
  then have q: "post = [] \<or> \<not> word_char T (hd post)"
    unfolding at_boundary_append using e by auto
  show "standalone_occurrence T w s"
    unfolding standalone_occurrence_def using s r m p q by blast
next
  assume "standalone_occurrence T w s"
  then obtain pre occ post where s: "s = pre @ occ @ post" and m: "list_all2 (ci_eq T) w occ"
    and p: "pre = [] \<or> \<not> word_char T (last pre)" and q: "post = [] \<or> \<not> word_char T (hd post)"
    unfolding standalone_occurrence_def by blast
  from ci_match_edges[OF assms m] have e: "occ \<noteq> []" "word_char T (hd occ)" "word_char T (last occ)"
    by simp_all
  from m have lo: "length occ = length w" by (simp add: list_all2_lengthD)
  have "at_boundary T (pre @ (occ @ post)) (length pre)"
    unfolding at_boundary_append using e p by auto
  then have b1: "at_boundary T s (length pre)" by (simp add: s)
  have "at_boundary T ((pre @ occ) @ post) (length (pre @ occ))"
    unfolding at_boundary_append using e q by auto
  then have b2: "at_boundary T s (length pre + length w)" by (simp add: s lo)
  have l: "lit_at T w s (length pre)"
    unfolding s lit_at_append using m by blast
  have "length pre \<le> length s" by (simp add: s)
  with b1 b2 l show "\<exists>i\<le>length s. pattern_at T (Bounded w) s i \<noteq> None" by auto
qed

lemma search_Bounded_iff:
  "word_like T w \<Longrightarrow> search T (Bounded w) s \<noteq> None \<longleftrightarrow> standalone_occurrence T w s"
  by (simp only: search_def re_search_found_iff bounded_at_iff)

lemma first_hit_iff: "fst (first_hit T text ps) \<longleftrightarrow> (\<exists>p\<in>set ps. search T p text \<noteq> None)"
  by (induction ps) (auto split: option.splits)

lemma compile_patterns_member:
  assumes "w \<in> set words" "strip T w \<noteq> []" "32 \<notin> set (strip T w)"
  shows "Bounded (strip T w) \<in> set (compile_patterns T words)"
  using assms by (induction words) (auto simp: Let_def)

text \<open>
  A configured word that begins and ends with a word character is found wherever it stands
  as a token of its own, whatever else is configured.
\<close>

lemma word_like_token_found:
  assumes "w \<in> set words" "word_like T (strip T w)" "standalone_occurrence T (strip T w) text"
  shows "fst (contains_banned T text (compile_patterns T words))"
proof -
  from assms(2) have ne: "strip T w \<noteq> []" and sp: "32 \<notin> set (strip T w)"
    by (simp_all add: word_like_def)
  from assms(1) ne sp have p: "Bounded (strip T w) \<in> set (compile_patterns T words)"
    by (rule compile_patterns_member)
  from assms(2,3) have s: "search T (Bounded (strip T w)) text \<noteq> None"
    by (simp only: search_Bounded_iff)
  from assms(2,3) have "text \<noteq> []"
    by (auto simp: standalone_occurrence_def word_like_def)
  then have "contains_banned T text (compile_patterns T words) = first_hit T text (compile_patterns T words)"
    by (simp add: contains_banned_def)
  moreover from p s have "fst (first_hit T text (compile_patterns T words))"
    unfolding first_hit_iff by blast
  ultimately show ?thesis by simp
qed

text \<open>Standing as a token of its own, by positions: the form that can be evaluated.\<close>

lemma standalone_occurrence_at:
  "standalone_occurrence T w s \<longleftrightarrow>
     (\<exists>i\<le>length s. lit_at T w s i \<and> (i = 0 \<or> \<not> word_char T (s ! (i - 1))) \<and>
        (length s \<le> i + length w \<or> \<not> word_char T (s ! (i + length w))))"
proof
  assume "standalone_occurrence T w s"
  then obtain pre occ post where s: "s = pre @ occ @ post" and m: "list_all2 (ci_eq T) w occ"
    and p: "pre = [] \<or> \<not> word_char T (last pre)" and q: "post = [] \<or> \<not> word_char T (hd post)"
    unfolding standalone_occurrence_def by blast
  from m have lo: "length occ = length w" by (simp add: list_all2_lengthD)
  have l: "lit_at T w s (length pre)"
    unfolding s lit_at_append using m by blast
  have a: "length pre = 0 \<or> \<not> word_char T (s ! (length pre - 1))"
  proof (cases "pre = []")
    case True
    then show ?thesis by simp
  next
    case False
    then have "s ! (length pre - 1) = last pre"
      by (simp add: s nth_append last_conv_nth)
    with p False show ?thesis by simp
  qed
  have b: "length s \<le> length pre + length w \<or> \<not> word_char T (s ! (length pre + length w))"
  proof (cases "post = []")
    case True
    then show ?thesis by (simp add: s lo)
  next
    case False
    then have "s ! (length pre + length w) = hd post"
      by (simp add: s lo nth_append hd_conv_nth)
    with q False show ?thesis by simp
  qed
  have "length pre \<le> length s" by (simp add: s)
  with l a b show "\<exists>i\<le>length s. lit_at T w s i \<and> (i = 0 \<or> \<not> word_char T (s ! (i - 1))) \<and>
        (length s \<le> i + length w \<or> \<not> word_char T (s ! (i + length w)))"
    by blast
next
  assume "\<exists>i\<le>length s. lit_at T w s i \<and> (i = 0 \<or> \<not> word_char T (s ! (i - 1))) \<and>
        (length s \<le> i + length w \<or> \<not> word_char T (s ! (i + length w)))"
  then obtain i where i: "i \<le> length s" and l: "lit_at T w s i"
    and a: "i = 0 \<or> \<not> word_char T (s ! (i - 1))"
    and b: "length s \<le> i + length w \<or> \<not> word_char T (s ! (i + length w))"
    by blast
  define pre where "pre = take i s"
  define occ where "occ = take (length w) (drop i s)"
  define post where "post = drop (i + length w) s"
  from l have le: "i + length w \<le> length s" and m: "list_all2 (ci_eq T) w occ"
    by (simp_all add: lit_at_def occ_def)
  have "s = take i s @ take (length w) (drop i s) @ drop (length w) (drop i s)"
    by (simp only: append_take_drop_id)
  then have s: "s = pre @ occ @ post"
    by (simp add: pre_def occ_def post_def add.commute)
  have p: "pre = [] \<or> \<not> word_char T (last pre)"
  proof (cases "i = 0")
    case True
    then show ?thesis by (simp add: pre_def)
  next
    case False
    with i have "pre \<noteq> []" and "length pre = i"
      by (auto simp: pre_def)
    then have "last pre = pre ! (i - 1)"
      by (simp add: last_conv_nth)
    also from False have "\<dots> = s ! (i - 1)"
      by (simp add: pre_def)
    finally have "last pre = s ! (i - 1)" .
    with a False show ?thesis by simp
  qed
  have q: "post = [] \<or> \<not> word_char T (hd post)"
  proof (cases "length s \<le> i + length w")
    case True
    then show ?thesis by (simp add: post_def)
  next
    case False
    then have "hd post = s ! (i + length w)"
      by (simp add: post_def hd_drop_conv_nth)
    with b False show ?thesis by simp
  qed
  from s m p q show "standalone_occurrence T w s"
    unfolding standalone_occurrence_def by blast
qed

lemma upt_ex: "(\<exists>i\<in>set [0..<Suc n]. P i) \<longleftrightarrow> (\<exists>i\<le>n. P i)"
  using upt_all[of n "\<lambda>i. \<not> P i"] by blast

lemma standalone_occurrence_code:
  "standalone_occurrence T w s \<longleftrightarrow>
     list_ex (\<lambda>i. lit_at T w s i \<and> (i = 0 \<or> \<not> word_char T (s ! (i - 1))) \<and>
        (length s \<le> i + length w \<or> \<not> word_char T (s ! (i + length w)))) [0..<Suc (length s)]"
  unfolding standalone_occurrence_at list_ex_iff by (rule upt_ex[symmetric])

text \<open>
  C1. The specification promises a match for every space-free banned word that stands in
  the message as a token of its own, and none where it is only part of a longer token. The
  code wraps such a word in \<open>\b\<close> on both sides, and \<open>\b\<close> next to a punctuation
  character asks for a word character on its other side. So for the banned word \<open>c++\<close>,
  compiled to the boundary pattern, the messages \<open>c++\<close> and \<open>I use c++ daily\<close>, where
  the word stands alone, are not matched, and the message \<open>c++x\<close>, where it is only the
  beginning of a longer token, is matched with \<open>c++\<close> as the hit.
\<close>

theorem banned_word_punctuation_missed:
  "compile_patterns ascii [lit ''c++''] = [Bounded (lit ''c++'')] \<and>
   standalone_occurrence ascii (lit ''c++'') (lit ''c++'') \<and>
   contains_banned ascii (lit ''c++'') (compile_patterns ascii [lit ''c++'']) = (False, []) \<and>
   standalone_occurrence ascii (lit ''c++'') (lit ''I use c++ daily'') \<and>
   contains_banned ascii (lit ''I use c++ daily'') (compile_patterns ascii [lit ''c++'']) = (False, []) \<and>
   \<not> standalone_occurrence ascii (lit ''c++'') (lit ''c++x'') \<and>
   contains_banned ascii (lit ''c++x'') (compile_patterns ascii [lit ''c++'']) = (True, lit ''c++'')"
proof -
  have a: "compile_patterns ascii [lit ''c++''] = [Bounded (lit ''c++'')]"
    by code_simp
  have b: "standalone_occurrence ascii (lit ''c++'') (lit ''c++'')"
    unfolding standalone_occurrence_code by code_simp
  have c: "contains_banned ascii (lit ''c++'') (compile_patterns ascii [lit ''c++'']) = (False, [])"
    by code_simp
  have d: "standalone_occurrence ascii (lit ''c++'') (lit ''I use c++ daily'')"
    unfolding standalone_occurrence_code by code_simp
  have e: "contains_banned ascii (lit ''I use c++ daily'') (compile_patterns ascii [lit ''c++'']) = (False, [])"
    by code_simp
  have f: "\<not> standalone_occurrence ascii (lit ''c++'') (lit ''c++x'')"
    unfolding standalone_occurrence_code by code_simp
  have g: "contains_banned ascii (lit ''c++x'') (compile_patterns ascii [lit ''c++'']) = (True, lit ''c++'')"
    by code_simp
  from a b c d e f g show ?thesis by (simp only: simp_thms)
qed

subsection \<open>Link allowlist\<close>

lemma str_in_iff: "str_in a b \<longleftrightarrow> occurs_in a b"
proof
  assume "str_in a b"
  then have "\<exists>i\<in>set [0..<Suc (length b)]. i + length a \<le> length b \<and> take (length a) (drop i b) = a"
    unfolding str_in_def list_ex_iff .
  then obtain i where i: "i + length a \<le> length b" "take (length a) (drop i b) = a"
    by blast
  have "b = take i b @ take (length a) (drop i b) @ drop (length a) (drop i b)"
    by (simp only: append_take_drop_id)
  with i(2) have "b = take i b @ a @ drop (length a) (drop i b)" by (simp only:)
  then show "occurs_in a b" unfolding occurs_in_def by blast
next
  assume "occurs_in a b"
  then obtain pre post where b: "b = pre @ a @ post" unfolding occurs_in_def by blast
  have "length pre \<in> set [0..<Suc (length b)]" by (simp add: b)
  moreover have "length pre + length a \<le> length b \<and> take (length a) (drop (length pre) b) = a"
    by (simp add: b)
  ultimately show "str_in a b" unfolding str_in_def list_ex_iff by blast
qed

lemma allowed_hit_iff:
  "allowed_hit T txt allowed \<longleftrightarrow> (\<exists>d\<in>set allowed. occurs_in (lower T d) (lower T txt))"
  by (induction allowed) (simp_all add: str_in_iff)

lemma link_at_Nil: "link_at T [] i = None"
  by (simp add: link_at_def lit_at_def dot_ext_at_def lit_def)

lemma link_search_Nil: "link_search T [] = None"
  by (simp add: link_search_def re_search_def link_at_Nil)

text \<open>
  C3. When the link pattern matches, \<open>contains_link\<close> reports no link exactly when some
  allowlist entry, lower-cased, is a substring of the lower-cased message text, wherever in
  the text it occurs; otherwise it reports the match.
\<close>

theorem contains_link_allowlist:
  assumes "link_search T txt = Some g"
  shows "contains_link T txt allowed =
           (if \<exists>d\<in>set allowed. occurs_in (lower T d) (lower T txt) then (False, []) else (True, g))"
proof -
  from assms have "txt \<noteq> []" using link_search_Nil by auto
  with assms show ?thesis by (simp add: contains_link_def allowed_hit_iff)
qed

theorem contains_link_allowlist_witness:
  "link_search ascii (lit ''ok https://x.io'') = Some (lit ''https://'') \<and>
   (\<exists>d\<in>set [lit ''OK'']. occurs_in (lower ascii d) (lower ascii (lit ''ok https://x.io''))) \<and>
   \<not> (\<exists>d\<in>set [lit ''good.org'']. occurs_in (lower ascii d) (lower ascii (lit ''ok https://x.io'')))"
proof -
  have m: "link_search ascii (lit ''ok https://x.io'') = Some (lit ''https://'')"
    by code_simp
  have y: "contains_link ascii (lit ''ok https://x.io'') [lit ''OK''] = (False, [])"
    by code_simp
  have n: "contains_link ascii (lit ''ok https://x.io'') [lit ''good.org''] = (True, lit ''https://'')"
    by code_simp
  from contains_link_allowlist[OF m, of "[lit ''OK'']"] y
  have a: "\<exists>d\<in>set [lit ''OK'']. occurs_in (lower ascii d) (lower ascii (lit ''ok https://x.io''))"
    by (simp split: if_splits)
  from contains_link_allowlist[OF m, of "[lit ''good.org'']"] n
  have b: "\<not> (\<exists>d\<in>set [lit ''good.org'']. occurs_in (lower ascii d) (lower ascii (lit ''ok https://x.io'')))"
    by (simp split: if_splits)
  from m a b show ?thesis by simp
qed

text \<open>
  C10. An allowlist that contains the empty string suppresses every link: for every message
  text \<open>contains_link\<close> reports no link. (\<open>"".lower()\<close> is \<open>""\<close>.)
\<close>

theorem empty_allowlist_entry_suppresses:
  assumes "[] \<in> set allowed" and "lower T [] = []"
  shows "contains_link T txt allowed = (False, [])"
proof -
  have "lower T txt = [] @ [] @ lower T txt" by simp
  then have "occurs_in [] (lower T txt)" unfolding occurs_in_def by blast
  with assms have "allowed_hit T txt allowed" unfolding allowed_hit_iff by force
  then show ?thesis by (simp add: contains_link_def split: option.splits)
qed

theorem empty_allowlist_entry_suppresses_witness:
  "[] \<in> set [lit ''example.com'', []] \<and> lower ascii [] = [] \<and>
   link_search ascii (lit ''see https://x.io'') = Some (lit ''https://'') \<and>
   contains_link ascii (lit ''see https://x.io'') [lit ''example.com'', []] = (False, [])"
proof -
  have a: "[] \<in> set [lit ''example.com'', []]" by simp
  have b: "lower ascii [] = []" by (simp add: ascii_def)
  have c: "link_search ascii (lit ''see https://x.io'') = Some (lit ''https://'')" by code_simp
  from a b c empty_allowlist_entry_suppresses[OF a b, of "lit ''see https://x.io''"]
  show ?thesis by simp
qed

subsection \<open>Loading the store\<close>

text \<open>
  C8. \<open>load_data\<close> returns the empty mapping when the file is absent, and when the file
  is there but opening or parsing it raises an error; in both cases it returns, it does not
  raise. When the file is there and parses, it returns what was parsed.
\<close>

theorem load_data_fallback:
  "(\<not> file_exists F \<longrightarrow> load_data F = Inr (JObj [])) \<and>
   (\<forall>e. file_exists F \<and> read_json F = Inl (Exception e) \<longrightarrow> load_data F = Inr (JObj [])) \<and>
   (\<forall>j. file_exists F \<and> read_json F = Inr j \<longrightarrow> load_data F = Inr j)"
  by (simp add: load_data_def)

theorem load_data_fallback_witness:
  "\<not> file_exists missing_file \<and> load_data missing_file = Inr (JObj []) \<and>
   file_exists corrupt_file \<and> read_json corrupt_file = Inl (Exception ''JSONDecodeError'') \<and>
   load_data corrupt_file = Inr (JObj []) \<and>
   file_exists good_file \<and> read_json good_file = Inr (JObj [(lit ''-100'', DEFAULTS_json)]) \<and>
   load_data good_file = Inr (JObj [(lit ''-100'', DEFAULTS_json)])"
proof -
  have a: "\<not> file_exists missing_file"
    by (simp add: missing_file_def)
  have b: "file_exists corrupt_file \<and> read_json corrupt_file = Inl (Exception ''JSONDecodeError'')"
    by (simp add: corrupt_file_def)
  have c: "file_exists good_file \<and> read_json good_file = Inr (JObj [(lit ''-100'', DEFAULTS_json)])"
    by (simp add: good_file_def)
  from a load_data_fallback[of missing_file] have a': "load_data missing_file = Inr (JObj [])"
    by blast
  from b load_data_fallback[of corrupt_file] have b': "load_data corrupt_file = Inr (JObj [])"
    by blast
  from c load_data_fallback[of good_file]
  have c': "load_data good_file = Inr (JObj [(lit ''-100'', DEFAULTS_json)])"
    by blast
  from a b c a' b' c' show ?thesis by simp
qed

subsection \<open>Default settings\<close>

lemma update_absent: "map_of al k = None \<Longrightarrow> AList.update k v al = al @ [(k, v)]"
  by (induction al) (auto split: if_splits)

lemma ensure_new:
  assumes "map_of (data st) chat = None"
  shows "ensure_chat_settings F chat st =
           (case write_json F (dump (with_defaults chat st)) of
              None \<Rightarrow> Inr DEFAULTS
            | Some e \<Rightarrow> Inl e,
            emit (Save (dump (with_defaults chat st))) (with_defaults chat st))"
  using assms
  by (simp add: ensure_chat_settings_def dict_copy_def update_absent save_data_def
      raise_or_return_def with_defaults_def split: option.splits)

lemma ensure_old:
  assumes "map_of (data st) chat = Some s"
  shows "ensure_chat_settings F chat st = (Inr s, st)"
  using assms by (simp add: ensure_chat_settings_def)

lemma json_of_with_defaults: "json_of (with_defaults chat st) v = json_of st v"
  by (cases v) (simp_all add: with_defaults_def)

lemma dump_with_defaults:
  assumes "template_intact st"
  shows "dump (with_defaults chat st) = JObj (saved_entries st @ [(chat, DEFAULTS_json)])"
proof -
  have "JObj (map (\<lambda>(k, v). (lit k, json_of st v)) DEFAULTS) = DEFAULTS_json"
    using assms by (simp add: DEFAULTS_def DEFAULTS_json_def template_intact_def)
  moreover have "data (with_defaults chat st) = data st @ [(chat, DEFAULTS)]"
    by (simp add: with_defaults_def)
  ultimately show ?thesis
    by (simp add: dump_def saved_entries_def json_of_with_defaults)
qed

text \<open>
  Nothing in the store functions writes to a list object, so the lists of \<open>DEFAULTS\<close>
  stay as they are.
\<close>

lemma ensure_chat_settings_lists:
  "str_lists (snd (ensure_chat_settings F chat st)) = str_lists st \<and>
   int_lists (snd (ensure_chat_settings F chat st)) = int_lists st"
  by (simp add: ensure_chat_settings_def save_data_def emit_def split: option.splits sum.splits)

lemma template_intact_init: "template_intact init_state"
  by (simp add: template_intact_def init_state_def)

lemma template_intact_ensure:
  "template_intact st \<Longrightarrow> template_intact (snd (ensure_chat_settings F chat st))"
  by (simp add: template_intact_def ensure_chat_settings_lists)

text \<open>
  C4. For a chat with no entry, \<open>ensure_chat_settings\<close> adds the defaults under the chat
  identifier after the existing entries and writes the store, new entry included, as its
  one effect; it returns the defaults if the write succeeds, and raises what the write
  raises otherwise, so it never returns before the store is persisted. The entry is enabled,
  in mode \<open>admins\<close>, and mutes for 600 seconds in both categories; its word list and its
  allowlist are the list objects of \<open>DEFAULTS\<close>, which are empty as long as nothing has
  been appended to them, and then what is written for the chat is the defaults with empty
  lists. For a chat that has an entry, the entry is returned and the state is the one
  before: nothing is written.
\<close>

theorem ensure_chat_settings_default:
  "(map_of (data st) chat = None \<longrightarrow>
      ensure_chat_settings F chat st =
        (case write_json F (dump (with_defaults chat st)) of
           None \<Rightarrow> Inr DEFAULTS
         | Some e \<Rightarrow> Inl e,
         emit (Save (dump (with_defaults chat st))) (with_defaults chat st)) \<and>
      py_get DEFAULTS ''enabled'' (VBool False) = VBool True \<and>
      py_get DEFAULTS ''mode'' (VStr []) = VStr (lit ''admins'') \<and>
      py_get DEFAULTS ''action_words'' (VStr []) = VStr (lit ''mute'') \<and>
      py_get DEFAULTS ''mute_seconds_words'' (VInt 0) = VInt 600 \<and>
      py_get DEFAULTS ''action_links'' (VStr []) = VStr (lit ''mute'') \<and>
      py_get DEFAULTS ''mute_seconds_links'' (VInt 0) = VInt 600 \<and>
      list_field (with_defaults chat st) DEFAULTS ''banned_words'' = Inr (str_lists st 0) \<and>
      list_field (with_defaults chat st) DEFAULTS ''allowed_links'' = Inr (str_lists st 1) \<and>
      (template_intact st \<longrightarrow>
         list_field (with_defaults chat st) DEFAULTS ''banned_words'' = Inr [] \<and>
         list_field (with_defaults chat st) DEFAULTS ''allowed_links'' = Inr [] \<and>
         dump (with_defaults chat st) = JObj (saved_entries st @ [(chat, DEFAULTS_json)]))) \<and>
   (\<forall>s. map_of (data st) chat = Some s \<longrightarrow> ensure_chat_settings F chat st = (Inr s, st))"
proof -
  have g: "py_get DEFAULTS ''enabled'' (VBool False) = VBool True"
    "py_get DEFAULTS ''mode'' (VStr []) = VStr (lit ''admins'')"
    "py_get DEFAULTS ''action_words'' (VStr []) = VStr (lit ''mute'')"
    "py_get DEFAULTS ''mute_seconds_words'' (VInt 0) = VInt 600"
    "py_get DEFAULTS ''action_links'' (VStr []) = VStr (lit ''mute'')"
    "py_get DEFAULTS ''mute_seconds_links'' (VInt 0) = VInt 600"
    by (simp_all add: py_get_def DEFAULTS_def)
  have l: "list_field (with_defaults chat st) DEFAULTS ''banned_words'' = Inr (str_lists st 0)"
    "list_field (with_defaults chat st) DEFAULTS ''allowed_links'' = Inr (str_lists st 1)"
    by (simp_all add: list_field_def DEFAULTS_def with_defaults_def)
  have t: "template_intact st \<longrightarrow>
         list_field (with_defaults chat st) DEFAULTS ''banned_words'' = Inr [] \<and>
         list_field (with_defaults chat st) DEFAULTS ''allowed_links'' = Inr [] \<and>
         dump (with_defaults chat st) = JObj (saved_entries st @ [(chat, DEFAULTS_json)])"
    using l by (simp add: dump_with_defaults) (simp add: template_intact_def)
  have n: "map_of (data st) chat = None \<longrightarrow>
      ensure_chat_settings F chat st =
        (case write_json F (dump (with_defaults chat st)) of
           None \<Rightarrow> Inr DEFAULTS
         | Some e \<Rightarrow> Inl e,
         emit (Save (dump (with_defaults chat st))) (with_defaults chat st))"
    using ensure_new by blast
  have s: "\<forall>s. map_of (data st) chat = Some s \<longrightarrow> ensure_chat_settings F chat st = (Inr s, st)"
    using ensure_old by blast
  from g l t n s show ?thesis by blast
qed

theorem ensure_chat_settings_default_witness:
  "map_of (data init_state) (str_int (-100)) = None \<and> template_intact init_state \<and>
   fst (ensure_chat_settings missing_file (str_int (-100)) init_state) = Inr DEFAULTS \<and>
   data (snd (ensure_chat_settings missing_file (str_int (-100)) init_state)) =
     [(str_int (-100), DEFAULTS)] \<and>
   trace (snd (ensure_chat_settings missing_file (str_int (-100)) init_state)) =
     [Save (JObj [(str_int (-100), DEFAULTS_json)])] \<and>
   map_of (data sample_state) (str_int (-100)) = Some sample_settings \<and>
   ensure_chat_settings missing_file (str_int (-100)) sample_state = (Inr sample_settings, sample_state)"
proof -
  have a: "map_of (data init_state) (str_int (-100)) = None"
    by (simp add: init_state_def)
  have b: "template_intact init_state"
    by (rule template_intact_init)
  have c: "map_of (data sample_state) (str_int (-100)) = Some sample_settings"
    by (simp add: sample_state_def)
  have w: "write_json missing_file j = None" for j
    by (simp add: missing_file_def)
  have se: "saved_entries init_state = []"
    by (simp add: saved_entries_def dump_def init_state_def)
  from a b ensure_chat_settings_default[of init_state "str_int (-100)" missing_file]
  have d: "ensure_chat_settings missing_file (str_int (-100)) init_state =
      (Inr DEFAULTS, emit (Save (JObj [(str_int (-100), DEFAULTS_json)]))
         (with_defaults (str_int (-100)) init_state))"
    by (simp add: w se)
  from c ensure_chat_settings_default[of sample_state "str_int (-100)" missing_file]
  have e: "ensure_chat_settings missing_file (str_int (-100)) sample_state = (Inr sample_settings, sample_state)"
    by blast
  have f: "data (emit (Save (JObj [(str_int (-100), DEFAULTS_json)]))
         (with_defaults (str_int (-100)) init_state)) = [(str_int (-100), DEFAULTS)]"
    "trace (emit (Save (JObj [(str_int (-100), DEFAULTS_json)]))
         (with_defaults (str_int (-100)) init_state)) = [Save (JObj [(str_int (-100), DEFAULTS_json)])]"
    by (simp_all add: emit_def with_defaults_def init_state_def)
  from a b c e f show ?thesis unfolding d by simp
qed

subsection \<open>Platform administrators\<close>

text \<open>
  C9. For the owner \<open>is_user_admin\<close> returns true and the state is the one before: the
  platform is not queried. For any other user, when the membership query raises an error,
  it returns false: the error is not raised to the caller.
\<close>

theorem is_user_admin_owner_and_failure:
  "is_user_admin P chat OWNER_ID st = (Inr True, st) \<and>
   (\<forall>e. uid \<noteq> OWNER_ID \<and> get_chat_member P chat uid = Inl (Exception e) \<longrightarrow>
        is_user_admin P chat uid st = (Inr False, emit (GetChatMember chat uid) st))"
  by (simp add: is_user_admin_def)

theorem is_user_admin_owner_and_failure_witness:
  "is_user_admin failing_platform (-100) OWNER_ID init_state = (Inr True, init_state) \<and>
   5 \<noteq> OWNER_ID \<and>
   get_chat_member failing_platform (-100) 5 = Inl (Exception ''TelegramBadRequest'') \<and>
   is_user_admin failing_platform (-100) 5 init_state =
     (Inr False, emit (GetChatMember (-100) 5) init_state) \<and>
   trace (emit (GetChatMember (-100) 5) init_state) = [GetChatMember (-100) 5]"
proof -
  have a: "5 \<noteq> OWNER_ID"
    by (simp add: OWNER_ID_def)
  have b: "get_chat_member failing_platform (-100) 5 = Inl (Exception ''TelegramBadRequest'')"
    by (simp add: failing_platform_def)
  have c: "trace (emit (GetChatMember (-100) 5) init_state) = [GetChatMember (-100) 5]"
    by (simp add: emit_def init_state_def)
  from a b is_user_admin_owner_and_failure[of failing_platform "-100" init_state 5]
  have d: "is_user_admin failing_platform (-100) OWNER_ID init_state = (Inr True, init_state) \<and>
    is_user_admin failing_platform (-100) 5 init_state =
     (Inr False, emit (GetChatMember (-100) 5) init_state)"
    by blast
  from a b c d show ?thesis by simp
qed

subsection \<open>Shared default lists\<close>


subsection \<open>Admin panel gate\<close>

lemma int_in_lists: "int_lists st' = int_lists st \<Longrightarrow> int_in st' u v = int_in st u v"
  by (cases v) simp_all

lemma is_bot_admin_rejects:
  assumes "ensure_chat_settings F chat st = (Inr s, st')" "int_lists st' = int_lists st"
    and "not_listed st s uid" "uid \<noteq> OWNER_ID"
  shows "is_bot_admin F chat uid st = (Inr False, st')"
proof (cases "map_of s ''bot_admins''")
  case None
  with assms(1,4) show ?thesis by (simp add: is_bot_admin_def)
next
  case (Some v)
  with assms(3) have "int_in st uid v = Inr False" by (simp add: not_listed_def)
  with int_in_lists[OF assms(2)] have "int_in st' uid v = Inr False" by simp
  with Some assms(1,4) show ?thesis by (simp add: is_bot_admin_def)
qed

text \<open>
  C6, as stated, fails for a chat that has no entry: user 5, who is neither the owner nor a
  bot admin, sends the panel command in chat \<open>-100\<close> while the store is empty. The reply is
  the rejection, and the store now has the default entry of the chat, which was also
  written to the file.
\<close>

theorem panel_rejection_creates_entry:
  "from_user sample_message = Some bob \<and> user_id bob \<noteq> OWNER_ID \<and>
   not_listed init_state (chat_settings init_state (str_int (chat_id sample_message))) (user_id bob) \<and>
   data init_state = [] \<and>
   fst (show_admin_panel missing_file failing_platform sample_message init_state) = Inr () \<and>
   data (snd (show_admin_panel missing_file failing_platform sample_message init_state)) =
     [(str_int (-100), DEFAULTS)] \<and>
   trace (snd (show_admin_panel missing_file failing_platform sample_message init_state)) =
     [Save (JObj [(str_int (-100), DEFAULTS_json)]), Reply rejection None]"
  by code_simp

text \<open>
  C6, as amended. A user who is neither the owner nor in the bot-admin list of the chat
  sends the panel command. If the chat has an entry, the rejection is replied and nothing
  else happens: the store is as before and nothing is written. If the chat has no entry,
  its default entry is added and written first, as on every first reference to a chat, and
  then the rejection is replied; when that write fails, its error is raised and there is
  no reply. No other entry is added or changed.
\<close>

theorem panel_rejection:
  assumes "from_user m = Some u" and "user_id u \<noteq> OWNER_ID"
    and "not_listed st (chat_settings st (str_int (chat_id m))) (user_id u)"
  shows "(\<forall>s. map_of (data st) (str_int (chat_id m)) = Some s \<longrightarrow>
            show_admin_panel F P m st =
              (raise_or_return (reply P rejection None), emit (Reply rejection None) st)) \<and>
         (map_of (data st) (str_int (chat_id m)) = None \<longrightarrow>
            show_admin_panel F P m st =
              (case write_json F (dump (with_defaults (str_int (chat_id m)) st)) of
                 None \<Rightarrow>
                   (raise_or_return (reply P rejection None),
                    emit (Reply rejection None)
                      (emit (Save (dump (with_defaults (str_int (chat_id m)) st)))
                         (with_defaults (str_int (chat_id m)) st)))
               | Some e \<Rightarrow>
                   (Inl e,
                    emit (Save (dump (with_defaults (str_int (chat_id m)) st)))
                      (with_defaults (str_int (chat_id m)) st))))"
proof (intro conjI allI impI)
  fix s assume s: "map_of (data st) (str_int (chat_id m)) = Some s"
  then have e: "ensure_chat_settings F (str_int (chat_id m)) st = (Inr s, st)"
    by (rule ensure_old)
  from s assms(3) have nl: "not_listed st s (user_id u)"
    by (simp add: chat_settings_def)
  have "is_bot_admin F (str_int (chat_id m)) (user_id u) st = (Inr False, st)"
    by (rule is_bot_admin_rejects[OF e refl nl assms(2)])
  with assms(1) show "show_admin_panel F P m st =
      (raise_or_return (reply P rejection None), emit (Reply rejection None) st)"
    by (simp add: show_admin_panel_def)
next
  assume n: "map_of (data st) (str_int (chat_id m)) = None"
  define st' where
    "st' = emit (Save (dump (with_defaults (str_int (chat_id m)) st))) (with_defaults (str_int (chat_id m)) st)"
  have il: "int_lists st' = int_lists st"
    by (simp add: st'_def emit_def with_defaults_def)
  from n assms(3) have nl: "not_listed st DEFAULTS (user_id u)"
    by (simp add: chat_settings_def)
  show "show_admin_panel F P m st =
      (case write_json F (dump (with_defaults (str_int (chat_id m)) st)) of
         None \<Rightarrow>
           (raise_or_return (reply P rejection None),
            emit (Reply rejection None)
              (emit (Save (dump (with_defaults (str_int (chat_id m)) st)))
                 (with_defaults (str_int (chat_id m)) st)))
       | Some e \<Rightarrow>
           (Inl e,
            emit (Save (dump (with_defaults (str_int (chat_id m)) st)))
              (with_defaults (str_int (chat_id m)) st)))"
  proof (cases "write_json F (dump (with_defaults (str_int (chat_id m)) st))")
    case None
    with n have e: "ensure_chat_settings F (str_int (chat_id m)) st = (Inr DEFAULTS, st')"
      by (simp add: ensure_new st'_def)
    from e il nl assms(2)
    have "is_bot_admin F (str_int (chat_id m)) (user_id u) st = (Inr False, st')"
      by (rule is_bot_admin_rejects)
    with assms(1) None show ?thesis
      by (simp add: show_admin_panel_def st'_def)
  next
    case (Some x)
    with n have e: "ensure_chat_settings F (str_int (chat_id m)) st = (Inl x, st')"
      by (simp add: ensure_new st'_def)
    then have "is_bot_admin F (str_int (chat_id m)) (user_id u) st = (Inl x, st')"
      by (simp add: is_bot_admin_def)
    with assms(1) Some show ?thesis
      by (simp add: show_admin_panel_def st'_def)
  qed
qed

theorem panel_rejection_witness:
  "from_user sample_message = Some bob \<and> user_id bob \<noteq> OWNER_ID \<and>
   not_listed sample_state (chat_settings sample_state (str_int (chat_id sample_message))) (user_id bob) \<and>
   map_of (data sample_state) (str_int (chat_id sample_message)) = Some sample_settings \<and>
   show_admin_panel missing_file failing_platform sample_message sample_state =
     (Inr (), emit (Reply rejection None) sample_state) \<and>
   not_listed init_state (chat_settings init_state (str_int (chat_id sample_message))) (user_id bob) \<and>
   map_of (data init_state) (str_int (chat_id sample_message)) = None \<and>
   show_admin_panel missing_file failing_platform sample_message init_state =
     (Inr (), emit (Reply rejection None)
        (emit (Save (dump (with_defaults (str_int (chat_id sample_message)) init_state)))
           (with_defaults (str_int (chat_id sample_message)) init_state)))"
proof -
  have a: "from_user sample_message = Some bob"
    by (simp add: sample_message_def)
  have b: "user_id bob \<noteq> OWNER_ID"
    by (simp add: bob_def OWNER_ID_def)
  have c: "not_listed sample_state (chat_settings sample_state (str_int (chat_id sample_message))) (user_id bob)"
    by code_simp
  have d: "map_of (data sample_state) (str_int (chat_id sample_message)) = Some sample_settings"
    by (simp add: sample_state_def sample_message_def)
  have e: "not_listed init_state (chat_settings init_state (str_int (chat_id sample_message))) (user_id bob)"
    by code_simp
  have f: "map_of (data init_state) (str_int (chat_id sample_message)) = None"
    by (simp add: init_state_def)
  have r: "raise_or_return (reply failing_platform rejection None) = Inr ()"
    by (simp add: raise_or_return_def failing_platform_def)
  have w: "write_json missing_file j = None" for j
    by (simp add: missing_file_def)
  from d panel_rejection[OF a b c, of missing_file failing_platform]
  have g: "show_admin_panel missing_file failing_platform sample_message sample_state =
     (Inr (), emit (Reply rejection None) sample_state)"
    by (simp add: r)
  from f panel_rejection[OF a b e, of missing_file failing_platform]
  have h: "show_admin_panel missing_file failing_platform sample_message init_state =
     (Inr (), emit (Reply rejection None)
        (emit (Save (dump (with_defaults (str_int (chat_id sample_message)) init_state)))
           (with_defaults (str_int (chat_id sample_message)) init_state)))"
    by (simp add: r w)
  from a b c d e f g h show ?thesis by (simp only: simp_thms)
qed

subsection \<open>Moderation engine\<close>

lemma minutes_text_int:
  "minutes_text secs shown = (if 60 \<le> secs then str_int (secs div 60) @ minut else shown @ sekund)"
proof -
  have "(1 \<le> secs div 60) = (60 \<le> secs)" by presburger
  then show ?thesis by (simp add: minutes_text_def Let_def)
qed

lemma actions_differ:
  "lit ''mute'' \<noteq> lit ''warn''" "lit ''ban'' \<noteq> lit ''warn''" "lit ''ban'' \<noteq> lit ''mute''"
  by (simp_all add: lit_def)

text \<open>
  C7. When the action is \<open>mute\<close> with a duration of \<open>secs\<close> seconds, the notification
  that is sent names the duration as the whole minutes \<open>secs // 60\<close> followed by the
  word for minutes (\<open>minut\<close>) if \<open>secs\<close> is at least 60, and as \<open>secs\<close> followed by
  the word for seconds (\<open>sekund\<close>) if it is less; 600 seconds give \<open>10\<close> and the word for
  minutes. (The notification is sent after the restriction was attempted, unless computing
  the mute-until time raised or the restriction raised something that is not an
  \<open>Exception\<close>.)
\<close>

theorem mute_notice_duration:
  assumes "until_date P secs = Inr t"
    and "\<forall>e. restrict_chat_member P chat uid t \<noteq> Some (NonException e)"
  shows "punish P chat uid name (VStr (lit ''mute'')) (VInt secs) reason st =
           send P chat
             (notice_head @ name @ notice_wrote @ reason @ mute_text @
              (if 60 \<le> secs then str_int (secs div 60) @ minut else str_int secs @ sekund) @
              notice_tail)
             (emit (RestrictChatMember chat uid t) st)"
proof (cases "restrict_chat_member P chat uid t")
  case None
  with assms(1) show ?thesis
    by (simp add: punish_def actions_differ minutes_text_int Let_def)
next
  case (Some x)
  with assms(2) obtain e where "x = Exception e" by (cases x) auto
  with Some assms(1) show ?thesis
    by (simp add: punish_def actions_differ minutes_text_int Let_def)
qed

theorem mute_notice_duration_witness:
  "until_date failing_platform 600 = Inr 1600 \<and>
   (\<forall>e. restrict_chat_member failing_platform (-100) 5 1600 \<noteq> Some (NonException e)) \<and>
   punish failing_platform (-100) 5 (lit ''@bob'') (VStr (lit ''mute'')) (VInt 600) reason_link init_state =
     send failing_platform (-100)
       (notice_head @ lit ''@bob'' @ notice_wrote @ reason_link @ mute_text @
        lit ''10'' @ minut @ notice_tail)
       (emit (RestrictChatMember (-100) 5 1600) init_state) \<and>
   until_date failing_platform 59 = Inr 1059 \<and>
   (\<forall>e. restrict_chat_member failing_platform (-100) 5 1059 \<noteq> Some (NonException e)) \<and>
   punish failing_platform (-100) 5 (lit ''@bob'') (VStr (lit ''mute'')) (VInt 59) reason_link init_state =
     send failing_platform (-100)
       (notice_head @ lit ''@bob'' @ notice_wrote @ reason_link @ mute_text @
        lit ''59'' @ sekund @ notice_tail)
       (emit (RestrictChatMember (-100) 5 1059) init_state)"
proof -
  have a: "until_date failing_platform 600 = Inr 1600"
    by (simp add: failing_platform_def)
  have b: "\<forall>e. restrict_chat_member failing_platform (-100) 5 1600 \<noteq> Some (NonException e)"
    by (simp add: failing_platform_def)
  have c: "until_date failing_platform 59 = Inr 1059"
    by (simp add: failing_platform_def)
  have d: "\<forall>e. restrict_chat_member failing_platform (-100) 5 1059 \<noteq> Some (NonException e)"
    by (simp add: failing_platform_def)
  have m: "str_int (600 div 60) = lit ''10''"
    by code_simp
  have s: "str_int 59 = lit ''59''"
    by code_simp
  from mute_notice_duration[OF a b, of "lit ''@bob''" reason_link init_state]
  have x: "punish failing_platform (-100) 5 (lit ''@bob'') (VStr (lit ''mute'')) (VInt 600) reason_link init_state =
     send failing_platform (-100)
       (notice_head @ lit ''@bob'' @ notice_wrote @ reason_link @ mute_text @
        lit ''10'' @ minut @ notice_tail)
       (emit (RestrictChatMember (-100) 5 1600) init_state)"
    unfolding m[symmetric] by simp
  from mute_notice_duration[OF c d, of "lit ''@bob''" reason_link init_state]
  have y: "punish failing_platform (-100) 5 (lit ''@bob'') (VStr (lit ''mute'')) (VInt 59) reason_link init_state =
     send failing_platform (-100)
       (notice_head @ lit ''@bob'' @ notice_wrote @ reason_link @ mute_text @
        lit ''59'' @ sekund @ notice_tail)
       (emit (RestrictChatMember (-100) 5 1059) init_state)"
    unfolding s[symmetric] by simp
  from a b c d x y show ?thesis by (simp only: simp_thms)
qed



subsection \<open>The lists of \<open>DEFAULTS\<close> are never written\<close>

text \<open>
  The handlers add entries to the store and events to the trace; none of them writes to a
  list object. So the lists of \<open>DEFAULTS\<close>, empty when the module is loaded, are empty
  in every state the handlers reach.
\<close>

lemma is_bot_admin_lists:
  "str_lists (snd (is_bot_admin F chat uid st)) = str_lists st \<and>
   int_lists (snd (is_bot_admin F chat uid st)) = int_lists st"
  by (simp add: is_bot_admin_def ensure_chat_settings_def save_data_def emit_def
      split: option.splits sum.splits prod.splits)

lemma show_admin_panel_lists:
  "str_lists (snd (show_admin_panel F P m st)) = str_lists st \<and>
   int_lists (snd (show_admin_panel F P m st)) = int_lists st"
  by (simp add: show_admin_panel_def is_bot_admin_def ensure_chat_settings_def save_data_def emit_def
      split: option.splits sum.splits prod.splits bool.splits)

lemma punish_lists:
  "str_lists (snd (punish P chat uid name action secs reason st)) = str_lists st \<and>
   int_lists (snd (punish P chat uid name action secs reason st)) = int_lists st"
  by (simp add: punish_def send_def emit_def Let_def
      split: option.splits sum.splits prod.splits exc.splits)

lemma admin_exempt_lists:
  "str_lists (snd (admin_exempt P m settings st)) = str_lists st \<and>
   int_lists (snd (admin_exempt P m settings st)) = int_lists st"
  by (simp add: admin_exempt_def is_user_admin_def emit_def
      split: option.splits sum.splits exc.splits)

lemma moderate_lists:
  "str_lists (snd (moderate T P m settings st)) = str_lists st \<and>
   int_lists (snd (moderate T P m settings st)) = int_lists st"
  by (simp add: moderate_def punish_lists emit_def Let_def
      split: option.splits sum.splits prod.splits exc.splits)

lemma mod_message_lists:
  "str_lists (snd (mod_message T F P m st)) = str_lists st \<and>
   int_lists (snd (mod_message T F P m st)) = int_lists st"
proof (cases "chat_type m \<noteq> ''group'' \<and> chat_type m \<noteq> ''supergroup''")
  case True
  then show ?thesis by (simp add: mod_message_def)
next
  case False
  obtain r st1 where e: "ensure_chat_settings F (str_int (chat_id m)) st = (r, st1)"
    by (cases "ensure_chat_settings F (str_int (chat_id m)) st")
  from ensure_chat_settings_lists[of F "str_int (chat_id m)" st] e
  have l1: "str_lists st1 = str_lists st" "int_lists st1 = int_lists st" by simp_all
  show ?thesis
  proof (cases r)
    case (Inl x)
    with False e l1 show ?thesis by (simp add: mod_message_def)
  next
    case (Inr settings)
    obtain a st2 where x: "admin_exempt P m settings st1 = (a, st2)"
      by (cases "admin_exempt P m settings st1")
    from admin_exempt_lists[of P m settings st1] x l1
    have l2: "str_lists st2 = str_lists st" "int_lists st2 = int_lists st" by simp_all
    from moderate_lists[of T P m settings st2] l2
    have l3: "str_lists (snd (moderate T P m settings st2)) = str_lists st"
      "int_lists (snd (moderate T P m settings st2)) = int_lists st" by simp_all
    from False e Inr x l1 l2 l3 show ?thesis
      by (simp add: mod_message_def split: sum.splits bool.splits)
  qed
qed

lemma template_intact_handlers:
  assumes "template_intact st"
  shows "template_intact (snd (show_admin_panel F P m st))"
    and "template_intact (snd (mod_message T F P m st))"
  using assms by (simp_all add: template_intact_def show_admin_panel_lists mod_message_lists)

end
